theory Spec2Isabelle
  imports Complex_Main
begin

section \<open>Data model\<close>

text \<open>
  The development follows \<^verbatim>\<open>t5/data/vocabularies.py\<close> and \<^verbatim>\<open>t5/data/utils.py\<close>.

  Python values are modelled as follows. An \<^verbatim>\<open>int\<close> is an \<^typ>\<open>int\<close>. A \<^verbatim>\<open>str\<close> is the
  list of its code points; the type \<^verbatim>\<open>str\<close> only holds code points from 0 to 0x10FFFF,
  which is the predicate \<open>is_str\<close>. A \<^verbatim>\<open>bytes\<close> object is the list of its byte values.
  A one-dimensional integer tensor is the list of its elements, a string scalar tensor is
  the list of the bytes it holds. Every exception is a value of the type \<open>error\<close>, and a
  function that can raise returns \<open>error + 'a\<close>.

  Private members of the classes, whose Python names start with an underscore, carry the
  prefix \<open>p_\<close> here: \<^verbatim>\<open>_encode\<close> is \<open>p_encode\<close>, \<^verbatim>\<open>_base_vocab_size\<close> is
  \<open>p_base_vocab_size\<close>.
\<close>

type_synonym str = "int list"
type_synonym bytes = "int list"

datatype error = UnicodeEncodeError | ValueError | InvalidArgumentError

definition is_str :: "str \<Rightarrow> bool" where
  "is_str s = (\<forall>c \<in> set s. 0 \<le> c \<and> c \<le> 0x10FFFF)"

definition PAD_ID :: int where "PAD_ID = 0"
definition EOS_ID :: int where "EOS_ID = 1"
definition UNK_ID :: int where "UNK_ID = 2"

record Vocabulary =
  p_extra_ids :: int
  p_use_eos :: bool
  p_use_unk :: bool

definition Vocabulary_init :: "int \<Rightarrow> bool \<Rightarrow> bool \<Rightarrow> Vocabulary" where
  "Vocabulary_init extra use_eos use_unk =
     \<lparr>p_extra_ids = extra, p_use_eos = use_eos, p_use_unk = use_unk\<rparr>"

definition eos_id :: "'a Vocabulary_scheme \<Rightarrow> int option" where
  "eos_id self = (if p_use_eos self then Some EOS_ID else None)"

definition pad_id :: "'a Vocabulary_scheme \<Rightarrow> int" where
  "pad_id self = PAD_ID"

definition unk_id :: "'a Vocabulary_scheme \<Rightarrow> int option" where
  "unk_id self = (if p_use_unk self then Some UNK_ID else None)"

definition extra_ids :: "'a Vocabulary_scheme \<Rightarrow> int" where
  "extra_ids self = p_extra_ids self"

text \<open>
  The abstract members of \<^verbatim>\<open>Vocabulary\<close> are parameters of the functions that use them:
  \<open>base\<close> is \<^verbatim>\<open>self._base_vocab_size\<close>, and \<open>enc\<close>, \<open>dec\<close>, \<open>enc_tf\<close>, \<open>dec_tf\<close> are
  \<^verbatim>\<open>self._encode\<close>, \<^verbatim>\<open>self._decode\<close>, \<^verbatim>\<open>self._encode_tf\<close>, \<^verbatim>\<open>self._decode_tf\<close>.
\<close>

definition Vocabulary_vocab_size :: "int \<Rightarrow> 'a Vocabulary_scheme \<Rightarrow> int" where
  "Vocabulary_vocab_size base self = base + extra_ids self"

definition Vocabulary_encode :: "(str \<Rightarrow> 'r) \<Rightarrow> 'a Vocabulary_scheme \<Rightarrow> str \<Rightarrow> 'r" where
  "Vocabulary_encode enc self s = enc s"

subsection \<open>Python lists\<close>

text \<open>\<^verbatim>\<open>xs.index(x)\<close>: the position of the first \<open>x\<close>, or \<^verbatim>\<open>ValueError\<close>.\<close>

fun list_index :: "int list \<Rightarrow> int \<Rightarrow> error + nat" where
  "list_index [] x = Inl ValueError"
| "list_index (y # ys) x =
     (if y = x then Inr 0
      else (case list_index ys x of Inl e \<Rightarrow> Inl e | Inr n \<Rightarrow> Inr (Suc n)))"

text \<open>The unknown-id substitution, the list comprehension of \<^verbatim>\<open>decode\<close>.\<close>

definition replace_unk :: "int \<Rightarrow> int \<Rightarrow> int list \<Rightarrow> int list" where
  "replace_unk base unk ids = map (\<lambda>i. if i \<ge> base then unk else i) ids"

definition Vocabulary_decode ::
  "int \<Rightarrow> (int list \<Rightarrow> error + 'r) \<Rightarrow> 'a Vocabulary_scheme \<Rightarrow> int list \<Rightarrow> error + 'r" where
  "Vocabulary_decode base dec self ids =
     (let clean_ids = ids;
          clean_ids = (case unk_id self of
                         None \<Rightarrow> clean_ids
                       | Some unk \<Rightarrow> replace_unk base unk clean_ids)
      in case eos_id self of
           None \<Rightarrow> dec clean_ids
         | Some eos \<Rightarrow>
             if eos \<in> set clean_ids
             then (case list_index clean_ids eos of
                     Inl e \<Rightarrow> Inl e
                   | Inr n \<Rightarrow> dec (take n clean_ids))
             else dec clean_ids)"

definition Vocabulary_encode_tf :: "(bytes \<Rightarrow> 'r) \<Rightarrow> 'a Vocabulary_scheme \<Rightarrow> bytes \<Rightarrow> 'r" where
  "Vocabulary_encode_tf enc_tf self s = enc_tf s"

subsection \<open>Tensor operations\<close>

text \<open>
  The operations of the tensor library that \<^verbatim>\<open>decode_tf\<close> and \<^verbatim>\<open>_encode_tf\<close> call, on
  one-dimensional tensors. \<^verbatim>\<open>tf.argmax\<close> returns the position of the first greatest
  element; on booleans that is the first \<open>True\<close>, and position 0 when there is none. It
  fails on an empty tensor, and so does reading element 0.
\<close>

definition tf_less :: "int list \<Rightarrow> int \<Rightarrow> bool list" where
  "tf_less xs k = map (\<lambda>x. x < k) xs"

definition tf_equal :: "int list \<Rightarrow> int \<Rightarrow> bool list" where
  "tf_equal xs k = map (\<lambda>x. x = k) xs"

definition tf_where :: "bool list \<Rightarrow> int list \<Rightarrow> int \<Rightarrow> int list" where
  "tf_where cs xs y = map (\<lambda>(c, x). if c then x else y) (zip cs xs)"

definition tf_argmax :: "bool list \<Rightarrow> error + nat" where
  "tf_argmax bs =
     (if bs = [] then Inl InvalidArgumentError
      else Inr (if True \<in> set bs then length (takeWhile (\<lambda>b. \<not> b) bs) else 0))"

definition tf_getitem :: "int list \<Rightarrow> nat \<Rightarrow> error + int" where
  "tf_getitem xs n = (if n < length xs then Inr (xs ! n) else Inl InvalidArgumentError)"

definition Vocabulary_decode_tf ::
  "int \<Rightarrow> (int list \<Rightarrow> error + 'r) \<Rightarrow> 'a Vocabulary_scheme \<Rightarrow> int list \<Rightarrow> error + 'r" where
  "Vocabulary_decode_tf base dec_tf self ids =
     (let valid_ids = ids;
          valid_ids = (case unk_id self of
                         None \<Rightarrow> valid_ids
                       | Some unk \<Rightarrow> tf_where (tf_less valid_ids base) valid_ids unk)
      in case eos_id self of
           None \<Rightarrow> dec_tf valid_ids
         | Some eos \<Rightarrow>
             (case tf_argmax (tf_equal valid_ids eos) of
                Inl e \<Rightarrow> Inl e
              | Inr first_eos \<Rightarrow>
                  (case tf_getitem valid_ids 0 of
                     Inl e \<Rightarrow> Inl e
                   | Inr v0 \<Rightarrow>
                       dec_tf (if first_eos = 0 \<and> v0 \<noteq> eos then valid_ids
                               else take first_eos valid_ids))))"

section \<open>The UTF-8 codec of the language\<close>

text \<open>
  \<^verbatim>\<open>s.encode("utf-8")\<close> and \<^verbatim>\<open>b.decode("utf-8", errors="ignore")\<close> are built into
  Python; they are written here after the CPython implementation. The encoder refuses a
  string holding a surrogate code point (U+D800 to U+DFFF). The decoder reads one
  sequence at a time; at an invalid start byte it skips that byte, at an invalid
  continuation byte it skips the bytes of the sequence read so far, and at a sequence cut
  by the end of the input it skips the rest.
\<close>

definition is_surrogate :: "int \<Rightarrow> bool" where
  "is_surrogate c = (0xD800 \<le> c \<and> c \<le> 0xDFFF)"

definition utf8_encode_char :: "int \<Rightarrow> bytes" where
  "utf8_encode_char c =
     (if c < 0x80 then [c]
      else if c < 0x800 then [0xC0 + c div 64, 0x80 + c mod 64]
      else if c < 0x10000 then
        [0xE0 + c div 4096, 0x80 + (c div 64) mod 64, 0x80 + c mod 64]
      else
        [0xF0 + c div 262144, 0x80 + (c div 4096) mod 64,
         0x80 + (c div 64) mod 64, 0x80 + c mod 64])"

definition str_encode_utf8 :: "str \<Rightarrow> error + bytes" where
  "str_encode_utf8 s =
     (if \<exists>c \<in> set s. is_surrogate c then Inl UnicodeEncodeError
      else Inr (concat (map utf8_encode_char s)))"

definition is_continuation_byte :: "int \<Rightarrow> bool" where
  "is_continuation_byte ch = (0x80 \<le> ch \<and> ch < 0xC0)"

fun utf8_decode_ignore :: "bytes \<Rightarrow> str" where
  "utf8_decode_ignore [] = []"
| "utf8_decode_ignore (ch # bs) =
     (if ch < 0x80 then ch # utf8_decode_ignore bs
      else if ch < 0xC2 then utf8_decode_ignore bs
      else if ch < 0xE0 then
        (case bs of
           [] \<Rightarrow> []
         | ch2 # bs2 \<Rightarrow>
             if \<not> is_continuation_byte ch2 then utf8_decode_ignore bs
             else (ch * 64 + ch2 - (0xC0 * 64 + 0x80)) # utf8_decode_ignore bs2)
      else if ch < 0xF0 then
        (case bs of
           [] \<Rightarrow> []
         | ch2 # bs2 \<Rightarrow>
             if \<not> is_continuation_byte ch2
                \<or> (if ch2 < 0xA0 then ch = 0xE0 else ch = 0xED)
             then utf8_decode_ignore bs
             else (case bs2 of
                     [] \<Rightarrow> []
                   | ch3 # bs3 \<Rightarrow>
                       if \<not> is_continuation_byte ch3 then utf8_decode_ignore bs2
                       else (ch * 4096 + ch2 * 64 + ch3
                             - (0xE0 * 4096 + 0x80 * 64 + 0x80)) # utf8_decode_ignore bs3))
      else if ch < 0xF5 then
        (case bs of
           [] \<Rightarrow> []
         | ch2 # bs2 \<Rightarrow>
             if \<not> is_continuation_byte ch2
                \<or> (if ch2 < 0x90 then ch = 0xF0 else ch = 0xF4)
             then utf8_decode_ignore bs
             else (case bs2 of
                     [] \<Rightarrow> []
                   | ch3 # bs3 \<Rightarrow>
                       if \<not> is_continuation_byte ch3 then utf8_decode_ignore bs2
                       else (case bs3 of
                               [] \<Rightarrow> []
                             | ch4 # bs4 \<Rightarrow>
                                 if \<not> is_continuation_byte ch4 then utf8_decode_ignore bs3
                                 else (ch * 262144 + ch2 * 4096 + ch3 * 64 + ch4
                                       - (0xF0 * 262144 + 0x80 * 4096 + 0x80 * 64 + 0x80))
                                      # utf8_decode_ignore bs4)))
      else utf8_decode_ignore bs)"

text \<open>\<^verbatim>\<open>bytes(ids)\<close> raises \<^verbatim>\<open>ValueError\<close> unless every element is in \<^verbatim>\<open>range(256)\<close>.\<close>

definition py_bytes :: "int list \<Rightarrow> error + bytes" where
  "py_bytes ids =
     (if \<forall>i \<in> set ids. 0 \<le> i \<and> i < 256 then Inr ids else Inl ValueError)"

section \<open>ByteVocabulary\<close>

record ByteVocabulary = Vocabulary +
  p_byte_size :: int
  p_num_special_tokens :: int

text \<open>
  The constructor sets the two fields of the subclass and calls the constructor of
  \<^verbatim>\<open>Vocabulary\<close> with \<^verbatim>\<open>use_eos=True, use_unk=True\<close> and the given \<^verbatim>\<open>extra_ids\<close>.
\<close>

definition ByteVocabulary_init :: "int \<Rightarrow> ByteVocabulary" where
  "ByteVocabulary_init extra =
     (let byte_size = 256;
          num_special_tokens = 3
      in Vocabulary.extend (Vocabulary_init extra True True)
           (ByteVocabulary.fields byte_size num_special_tokens))"

definition p_convert_strings_to_ids :: "ByteVocabulary \<Rightarrow> str \<Rightarrow> error + int list" where
  "p_convert_strings_to_ids self s = str_encode_utf8 s"

definition p_convert_ids_to_strings :: "ByteVocabulary \<Rightarrow> int list \<Rightarrow> error + str" where
  "p_convert_ids_to_strings self ids =
     (case py_bytes ids of Inl e \<Rightarrow> Inl e | Inr b \<Rightarrow> Inr (utf8_decode_ignore b))"

definition p_filter_non_string_ids :: "ByteVocabulary \<Rightarrow> int list \<Rightarrow> int list" where
  "p_filter_non_string_ids self ids =
     (let lower_bound = p_num_special_tokens self;
          upper_bound = p_byte_size self + p_num_special_tokens self
      in filter (\<lambda>i. lower_bound \<le> i \<and> i < upper_bound) ids)"

definition p_base_vocab_size :: "ByteVocabulary \<Rightarrow> int" where
  "p_base_vocab_size self = p_num_special_tokens self + p_byte_size self"

definition vocab_size :: "ByteVocabulary \<Rightarrow> int" where
  "vocab_size self = Vocabulary_vocab_size (p_base_vocab_size self) self"

definition p_encode :: "ByteVocabulary \<Rightarrow> str \<Rightarrow> error + int list" where
  "p_encode self s =
     (case p_convert_strings_to_ids self s of
        Inl e \<Rightarrow> Inl e
      | Inr ids \<Rightarrow> Inr (map (\<lambda>i. i + p_num_special_tokens self) ids))"

definition p_decode :: "ByteVocabulary \<Rightarrow> int list \<Rightarrow> error + str" where
  "p_decode self ids =
     (let ids = p_filter_non_string_ids self ids;
          ids = map (\<lambda>i. i - p_num_special_tokens self) ids
      in p_convert_ids_to_strings self ids)"

definition encode :: "ByteVocabulary \<Rightarrow> str \<Rightarrow> error + int list" where
  "encode self s = Vocabulary_encode (p_encode self) self s"

definition decode :: "ByteVocabulary \<Rightarrow> int list \<Rightarrow> error + str" where
  "decode self ids = Vocabulary_decode (p_base_vocab_size self) (p_decode self) self ids"

text \<open>
  \<^verbatim>\<open>tf.io.decode_raw(s, tf.uint8)\<close> gives the bytes of the string tensor as unsigned
  8-bit integers. Adding the Python integer 3 to that tensor is an addition of unsigned
  8-bit integers, which wraps around at 256; the cast to 32 bits that follows keeps the
  value.
\<close>

definition uint8_add :: "int \<Rightarrow> int \<Rightarrow> int" where
  "uint8_add a b = (a + b) mod 256"

definition tf_cast_int32 :: "int list \<Rightarrow> int list" where
  "tf_cast_int32 xs = xs"

definition p_encode_tf :: "ByteVocabulary \<Rightarrow> bytes \<Rightarrow> int list" where
  "p_encode_tf self s =
     (let tf_ids = map (\<lambda>b. uint8_add b (p_num_special_tokens self)) s
      in tf_cast_int32 tf_ids)"

definition encode_tf :: "ByteVocabulary \<Rightarrow> bytes \<Rightarrow> int list" where
  "encode_tf self s = Vocabulary_encode_tf (p_encode_tf self) self s"

text \<open>
  \<^verbatim>\<open>tf.py_function(func=self.decode, inp=[ids], Tout=tf.string)\<close> runs the Python
  \<^verbatim>\<open>decode\<close> on the tensor and wraps the string it returns as a string tensor, which
  holds the UTF-8 bytes of the string. \<open>tf_string\<close> is that wrapping.
\<close>

definition tf_string :: "str \<Rightarrow> error + bytes" where
  "tf_string s = str_encode_utf8 s"

definition p_decode_tf :: "ByteVocabulary \<Rightarrow> int list \<Rightarrow> error + bytes" where
  "p_decode_tf self ids =
     (case decode self ids of Inl e \<Rightarrow> Inl e | Inr s \<Rightarrow> tf_string s)"

definition decode_tf :: "ByteVocabulary \<Rightarrow> int list \<Rightarrow> error + bytes" where
  "decode_tf self ids =
     Vocabulary_decode_tf (p_base_vocab_size self) (p_decode_tf self) self ids"

definition ByteVocabulary_eq :: "ByteVocabulary \<Rightarrow> ByteVocabulary \<Rightarrow> bool" where
  "ByteVocabulary_eq self other =
     (let their_extra_ids = extra_ids other in extra_ids self = their_extra_ids)"

text \<open>
  The two round trips that the batched and the scalar interface offer for a string \<open>s\<close>.
  The batched one wraps \<open>s\<close> as a string tensor and applies \<^verbatim>\<open>encode_tf\<close>, then
  \<^verbatim>\<open>decode_tf\<close>; its result is a string tensor. The scalar one applies \<^verbatim>\<open>encode\<close>, then
  \<^verbatim>\<open>decode\<close>, and its result is wrapped as a string tensor to be compared with the other.
\<close>

definition batched_roundtrip :: "ByteVocabulary \<Rightarrow> str \<Rightarrow> error + bytes" where
  "batched_roundtrip self s =
     (case tf_string s of
        Inl e \<Rightarrow> Inl e
      | Inr t \<Rightarrow> decode_tf self (encode_tf self t))"

definition scalar_roundtrip :: "ByteVocabulary \<Rightarrow> str \<Rightarrow> error + bytes" where
  "scalar_roundtrip self s =
     (case encode self s of
        Inl e \<Rightarrow> Inl e
      | Inr ids \<Rightarrow> (case decode self ids of Inl e \<Rightarrow> Inl e | Inr r \<Rightarrow> tf_string r))"

section \<open>Mixing rates\<close>

text \<open>
  \<^verbatim>\<open>rate_unsupervised(task, value=1e6)\<close>: an argument left out is \<open>None\<close> here and takes
  the default of the signature. The value is a real number; the function does no
  arithmetic on it.
\<close>

definition rate_unsupervised :: "'task \<Rightarrow> real option \<Rightarrow> real" where
  "rate_unsupervised task value =
     (let value = (case value of None \<Rightarrow> 1000000 | Some v \<Rightarrow> v) in value)"

section \<open>What decoding passes to the primitive decoder\<close>

text \<open>
  \<open>clean_ids\<close> is the list that \<^verbatim>\<open>decode\<close> hands to \<^verbatim>\<open>self._decode\<close>: the ids with the
  unknown ones replaced, cut before the first terminator.
\<close>

definition clean_ids :: "int \<Rightarrow> 'a Vocabulary_scheme \<Rightarrow> int list \<Rightarrow> int list" where
  "clean_ids base self ids =
     (let a = (if p_use_unk self then replace_unk base UNK_ID ids else ids)
      in if p_use_eos self then takeWhile (\<lambda>i. i \<noteq> EOS_ID) a else a)"

lemma ByteVocabulary_init_fields:
  "ByteVocabulary_init extra =
     \<lparr>p_extra_ids = extra, p_use_eos = True, p_use_unk = True,
      p_byte_size = 256, p_num_special_tokens = 3\<rparr>"
  by (simp add: ByteVocabulary_init_def Vocabulary_init_def Vocabulary.extend_def
      ByteVocabulary.fields_def)

lemma list_index_first:
  "x \<in> set xs \<Longrightarrow> list_index xs x = Inr (length (takeWhile (\<lambda>y. y \<noteq> x) xs))"
  by (induction xs) auto

lemma take_first_occurrence:
  "take (length (takeWhile P xs)) xs = takeWhile P xs"
  by (induction xs) auto

lemma takeWhile_absent:
  "x \<notin> set xs \<Longrightarrow> takeWhile (\<lambda>i. i \<noteq> x) xs = xs"
  by (induction xs) auto

lemma Vocabulary_decode_clean:
  "Vocabulary_decode base dec self ids = dec (clean_ids base self ids)"
  by (simp add: Vocabulary_decode_def clean_ids_def unk_id_def eos_id_def Let_def
      list_index_first take_first_occurrence takeWhile_absent)

lemma tf_where_less:
  "tf_where (tf_less xs k) xs y = replace_unk k y xs"
  by (induction xs) (auto simp: tf_where_def tf_less_def replace_unk_def)

lemma tf_argmax_equal:
  "xs \<noteq> [] \<Longrightarrow> tf_argmax (tf_equal xs k) =
     Inr (if k \<in> set xs then length (takeWhile (\<lambda>i. i \<noteq> k) xs) else 0)"
  by (auto simp: tf_argmax_def tf_equal_def takeWhile_map comp_def)

lemma Vocabulary_decode_tf_clean:
  assumes "ids \<noteq> []"
  shows "Vocabulary_decode_tf base dec_tf self ids = dec_tf (clean_ids base self ids)"
proof -
  define a where "a = (if p_use_unk self then replace_unk base UNK_ID ids else ids)"
  have ne: "a \<noteq> []"
    using assms by (simp add: a_def replace_unk_def)
  have a0: "tf_getitem a 0 = Inr (hd a)"
    using ne by (cases a) (simp_all add: tf_getitem_def)
  have hd0: "EOS_ID \<in> set a \<Longrightarrow> length (takeWhile (\<lambda>i. i \<noteq> EOS_ID) a) = 0 \<Longrightarrow> hd a = EOS_ID"
    using ne by (cases a) (auto split: if_splits)
  have "Vocabulary_decode_tf base dec_tf self ids =
        (if p_use_eos self then
           (case tf_argmax (tf_equal a EOS_ID) of
              Inl e \<Rightarrow> Inl e
            | Inr first_eos \<Rightarrow>
                (case tf_getitem a 0 of
                   Inl e \<Rightarrow> Inl e
                 | Inr v0 \<Rightarrow>
                     dec_tf (if first_eos = 0 \<and> v0 \<noteq> EOS_ID then a else take first_eos a)))
         else dec_tf a)"
    unfolding a_def
    by (cases "p_use_unk self")
       (simp_all add: Vocabulary_decode_tf_def unk_id_def eos_id_def tf_where_less Let_def)
  also have "\<dots> = dec_tf (if p_use_eos self then takeWhile (\<lambda>i. i \<noteq> EOS_ID) a else a)"
  proof (cases "EOS_ID \<in> set a")
    case True
    with hd0 have "\<not> (length (takeWhile (\<lambda>i. i \<noteq> EOS_ID) a) = 0 \<and> hd a \<noteq> EOS_ID)"
      by blast
    then show ?thesis
      using True by (auto simp: tf_argmax_equal[OF ne] a0 take_first_occurrence)
  next
    case False
    have "hd a \<noteq> EOS_ID"
      using False ne by (cases a) auto
    then show ?thesis
      using False by (simp add: tf_argmax_equal[OF ne] a0 takeWhile_absent)
  qed
  finally show ?thesis
    by (simp add: clean_ids_def a_def)
qed

lemma takeWhile_replace_unk:
  "EOS_ID < base \<Longrightarrow>
   takeWhile (\<lambda>i. i \<noteq> EOS_ID) (replace_unk base UNK_ID ids) =
   replace_unk base UNK_ID (takeWhile (\<lambda>i. i \<noteq> EOS_ID) ids)"
  by (induction ids) (auto simp: replace_unk_def EOS_ID_def UNK_ID_def)

lemma eos_mem_replace_unk:
  "EOS_ID \<in> set (replace_unk base UNK_ID ids) \<Longrightarrow> EOS_ID \<in> set ids"
  by (induction ids) (auto simp: replace_unk_def EOS_ID_def UNK_ID_def split: if_splits)

lemma ByteVocabulary_clean_ids:
  "clean_ids (p_base_vocab_size (ByteVocabulary_init k)) (ByteVocabulary_init k) ids =
   takeWhile (\<lambda>i. i \<noteq> 1) (map (\<lambda>i. if 259 \<le> i then 2 else i) ids)"
  by (simp add: clean_ids_def p_base_vocab_size_def ByteVocabulary_init_fields
      replace_unk_def EOS_ID_def UNK_ID_def)

lemma clean_ids_prefix:
  assumes "p_use_eos self" and "p_use_unk self \<longrightarrow> EOS_ID < base"
  shows "clean_ids base self ids =
         (if p_use_unk self then replace_unk base UNK_ID (takeWhile (\<lambda>i. i \<noteq> EOS_ID) ids)
          else takeWhile (\<lambda>i. i \<noteq> EOS_ID) ids)"
  using assms by (simp add: clean_ids_def takeWhile_replace_unk)

lemma clean_ids_takeWhile:
  assumes "p_use_eos self" and "p_use_unk self \<longrightarrow> EOS_ID < base"
  shows "clean_ids base self (takeWhile (\<lambda>i. i \<noteq> EOS_ID) ids) = clean_ids base self ids"
  using assms by (simp add: clean_ids_prefix)

lemma first_occurrence:
  "x \<in> set xs \<Longrightarrow>
   length (takeWhile (\<lambda>i. i \<noteq> x) xs) < length xs
   \<and> xs ! length (takeWhile (\<lambda>i. i \<noteq> x) xs) = x"
  by (induction xs) auto

lemma ByteVocabulary_base_vocab_size:
  "p_base_vocab_size (ByteVocabulary_init k) = 259"
  by (simp add: p_base_vocab_size_def ByteVocabulary_init_fields)

lemma filter_replace_unk:
  "filter (\<lambda>i. 3 \<le> i \<and> i < 259) (replace_unk 259 UNK_ID ids) =
   filter (\<lambda>i. 3 \<le> i \<and> i < 259) ids"
  by (induction ids) (auto simp: replace_unk_def UNK_ID_def)

lemma py_bytes_in_range:
  "\<forall>i \<in> set ids. 0 \<le> i \<and> i < 256 \<Longrightarrow> py_bytes ids = Inr ids"
  by (simp add: py_bytes_def)

lemma p_decode_ByteVocabulary:
  "p_decode (ByteVocabulary_init k) ids =
   Inr (utf8_decode_ignore (map (\<lambda>i. i - 3) (filter (\<lambda>i. 3 \<le> i \<and> i < 259) ids)))"
proof -
  have "py_bytes (map (\<lambda>i. i - 3) (filter (\<lambda>i. 3 \<le> i \<and> i < 259) ids)) =
        Inr (map (\<lambda>i. i - 3) (filter (\<lambda>i. 3 \<le> i \<and> i < 259) ids))"
    by (rule py_bytes_in_range) auto
  then show ?thesis
    by (simp add: p_decode_def p_filter_non_string_ids_def p_convert_ids_to_strings_def
        ByteVocabulary_init_fields)
qed

lemma decode_ByteVocabulary:
  "decode (ByteVocabulary_init k) ids =
   Inr (utf8_decode_ignore
          (map (\<lambda>i. i - 3)
             (filter (\<lambda>i. 3 \<le> i \<and> i < 259) (takeWhile (\<lambda>i. i \<noteq> 1) ids))))"
proof -
  have "clean_ids 259 (ByteVocabulary_init k) ids =
        replace_unk 259 UNK_ID (takeWhile (\<lambda>i. i \<noteq> 1) ids)"
    by (simp add: clean_ids_def ByteVocabulary_init_fields
        takeWhile_replace_unk[unfolded EOS_ID_def] EOS_ID_def)
  then show ?thesis
    by (simp add: decode_def Vocabulary_decode_clean p_decode_ByteVocabulary
        filter_replace_unk ByteVocabulary_base_vocab_size)
qed

section \<open>The UTF-8 codec: encoding then decoding\<close>

text \<open>
  The encoder produces, for a code point that is not a surrogate, a sequence the decoder
  accepts and reads back as that code point. Every byte of an encoding is at most 0xF4.
\<close>

lemma utf8_encode2:
  fixes c :: int
  assumes "0x80 \<le> c" "c < 0x800"
  shows "0xC2 \<le> 0xC0 + c div 64" "0xC0 + c div 64 < 0xE0"
        "(0xC0 + c div 64) * 64 + (0x80 + c mod 64) - (0xC0 * 64 + 0x80) = c"
  using assms by presburger+

lemma utf8_lead3_range:
  fixes c :: int
  assumes "0x800 \<le> c" "c < 0x10000"
  shows "0 \<le> c div 4096 \<and> c div 4096 < 16"
proof -
  have "c = 4096 * (c div 4096) + c mod 4096" "0 \<le> c mod 4096" "c mod 4096 < 4096"
    by simp_all
  then show ?thesis
    using assms by linarith
qed

lemma utf8_encode3:
  fixes c :: int
  assumes "0x800 \<le> c" "c < 0x10000" "\<not> is_surrogate c"
  shows "0xE0 \<le> 0xE0 + c div 4096" "0xE0 + c div 4096 < 0xF0"
    "\<not> (if 0x80 + (c div 64) mod 64 < 0xA0 then 0xE0 + c div 4096 = 0xE0 else 0xE0 + c div 4096 = 0xED)"
    "(0xE0 + c div 4096) * 4096 + (0x80 + (c div 64) mod 64) * 64 + (0x80 + c mod 64)
       - (0xE0 * 4096 + 0x80 * 64 + 0x80) = c"
proof -
  define q where "q = c div 64"
  define r where "r = c mod 64"
  define q2 where "q2 = q div 64"
  define r2 where "r2 = q mod 64"
  have c: "c = 64 * q + r" "0 \<le> r" "r < 64" by (simp_all add: q_def r_def)
  have q: "q = 64 * q2 + r2" "0 \<le> r2" "r2 < 64" by (simp_all add: q2_def r2_def)
  have d: "c div 4096 = q2" 
    unfolding q2_def q_def by (simp add: div_mult2_eq[symmetric])
  show "0xE0 \<le> 0xE0 + c div 4096" using assms c q unfolding d by linarith
  show "0xE0 + c div 4096 < 0xF0" using assms c q unfolding d by linarith
  show "\<not> (if 0x80 + (c div 64) mod 64 < 0xA0 then 0xE0 + c div 4096 = 0xE0 else 0xE0 + c div 4096 = 0xED)"
    using assms c q unfolding d q_def[symmetric] r2_def[symmetric] is_surrogate_def
    by (auto split: if_splits)
  show "(0xE0 + c div 4096) * 4096 + (0x80 + (c div 64) mod 64) * 64 + (0x80 + c mod 64)
       - (0xE0 * 4096 + 0x80 * 64 + 0x80) = c"
    unfolding d q_def[symmetric] r2_def[symmetric] r_def[symmetric] 
    using c q by (simp add: algebra_simps)
qed


lemma utf8_encode4:
  fixes c :: int
  assumes "0x10000 \<le> c" "c \<le> 0x10FFFF"
  shows "0xF0 \<le> 0xF0 + c div 262144" "0xF0 + c div 262144 < 0xF5"
    "\<not> (if 0x80 + (c div 4096) mod 64 < 0x90 then 0xF0 + c div 262144 = 0xF0
        else 0xF0 + c div 262144 = 0xF4)"
    "(0xF0 + c div 262144) * 262144 + (0x80 + (c div 4096) mod 64) * 4096
       + (0x80 + (c div 64) mod 64) * 64 + (0x80 + c mod 64)
       - (0xF0 * 262144 + 0x80 * 4096 + 0x80 * 64 + 0x80) = c"
proof -
  define q where "q = c div 64"
  define r where "r = c mod 64"
  define q2 where "q2 = q div 64"
  define r2 where "r2 = q mod 64"
  define q3 where "q3 = q2 div 64"
  define r3 where "r3 = q2 mod 64"
  have c: "c = 64 * q + r" "0 \<le> r" "r < 64" by (simp_all add: q_def r_def)
  have q: "q = 64 * q2 + r2" "0 \<le> r2" "r2 < 64" by (simp_all add: q2_def r2_def)
  have q2: "q2 = 64 * q3 + r3" "0 \<le> r3" "r3 < 64" by (simp_all add: q3_def r3_def)
  have d: "c div 4096 = q2"
    unfolding q2_def q_def by (simp add: div_mult2_eq[symmetric])
  have d3: "c div 262144 = q3"
    unfolding q3_def q2_def q_def by (simp add: div_mult2_eq[symmetric])
  show "0xF0 \<le> 0xF0 + c div 262144" using assms c q q2 unfolding d3 by linarith
  show "0xF0 + c div 262144 < 0xF5" using assms c q q2 unfolding d3 by linarith
  show "\<not> (if 0x80 + (c div 4096) mod 64 < 0x90 then 0xF0 + c div 262144 = 0xF0
        else 0xF0 + c div 262144 = 0xF4)"
    using assms c q q2 unfolding d d3 r3_def[symmetric]
    by (auto split: if_splits)
  show "(0xF0 + c div 262144) * 262144 + (0x80 + (c div 4096) mod 64) * 4096
       + (0x80 + (c div 64) mod 64) * 64 + (0x80 + c mod 64)
       - (0xF0 * 262144 + 0x80 * 4096 + 0x80 * 64 + 0x80) = c"
    unfolding d d3 q_def[symmetric] r2_def[symmetric] r_def[symmetric] r3_def[symmetric]
    using c q q2 by (simp add: algebra_simps)
qed


lemma utf8_decode1: "b1 < 0x80 \<Longrightarrow> utf8_decode_ignore (b1 # bs) = b1 # utf8_decode_ignore bs"
  by simp

lemma utf8_decode2:
  "0xC2 \<le> b1 \<Longrightarrow> b1 < 0xE0 \<Longrightarrow> is_continuation_byte b2 \<Longrightarrow>
   utf8_decode_ignore (b1 # b2 # bs) =
   (b1 * 64 + b2 - (0xC0 * 64 + 0x80)) # utf8_decode_ignore bs"
  by simp

lemma utf8_decode3:
  "0xE0 \<le> b1 \<Longrightarrow> b1 < 0xF0 \<Longrightarrow> is_continuation_byte b2 \<Longrightarrow>
   \<not> (if b2 < 0xA0 then b1 = 0xE0 else b1 = 0xED) \<Longrightarrow> is_continuation_byte b3 \<Longrightarrow>
   utf8_decode_ignore (b1 # b2 # b3 # bs) =
   (b1 * 4096 + b2 * 64 + b3 - (0xE0 * 4096 + 0x80 * 64 + 0x80)) # utf8_decode_ignore bs"
  by simp

lemma utf8_decode4:
  "0xF0 \<le> b1 \<Longrightarrow> b1 < 0xF5 \<Longrightarrow> is_continuation_byte b2 \<Longrightarrow>
   \<not> (if b2 < 0x90 then b1 = 0xF0 else b1 = 0xF4) \<Longrightarrow> is_continuation_byte b3 \<Longrightarrow>
   is_continuation_byte b4 \<Longrightarrow>
   utf8_decode_ignore (b1 # b2 # b3 # b4 # bs) =
   (b1 * 262144 + b2 * 4096 + b3 * 64 + b4
      - (0xF0 * 262144 + 0x80 * 4096 + 0x80 * 64 + 0x80)) # utf8_decode_ignore bs"
  by simp


lemma continuation_mod: "is_continuation_byte (0x80 + x mod 64)"
  by (simp add: is_continuation_byte_def)

lemma utf8_decode_encode_char:
  assumes "0 \<le> c" "c \<le> 0x10FFFF" "\<not> is_surrogate c"
  shows "utf8_decode_ignore (utf8_encode_char c @ bs) = c # utf8_decode_ignore bs"
proof -
  consider "c < 0x80" | "0x80 \<le> c" "c < 0x800" | "0x800 \<le> c" "c < 0x10000" | "0x10000 \<le> c"
    by linarith
  then show ?thesis
  proof cases
    case 1
    then have e: "utf8_encode_char c = [c]"
      by (simp add: utf8_encode_char_def)
    show ?thesis
      unfolding e using utf8_decode1[OF 1, where bs = bs] by (simp only: append_Cons append_Nil)
  next
    case 2
    then have e: "utf8_encode_char c = [0xC0 + c div 64, 0x80 + c mod 64]"
      by (simp add: utf8_encode_char_def)
    show ?thesis
      unfolding e
      using utf8_decode2[OF utf8_encode2(1,2)[OF 2] continuation_mod[of c], where bs = bs]
      by (simp only: append_Cons append_Nil utf8_encode2(3)[OF 2])
  next
    case 3
    then have e: "utf8_encode_char c =
                  [0xE0 + c div 4096, 0x80 + (c div 64) mod 64, 0x80 + c mod 64]"
      by (simp add: utf8_encode_char_def)
    show ?thesis
      unfolding e
      using utf8_decode3[OF utf8_encode3(1,2)[OF 3 assms(3)] continuation_mod[of "c div 64"] utf8_encode3(3)[OF 3 assms(3)]
                 continuation_mod[of c], where bs = bs]
      by (simp only: append_Cons append_Nil utf8_encode3(4)[OF 3 assms(3)])
  next
    case 4
    then have e: "utf8_encode_char c =
                  [0xF0 + c div 262144, 0x80 + (c div 4096) mod 64,
                   0x80 + (c div 64) mod 64, 0x80 + c mod 64]"
      by (simp add: utf8_encode_char_def)
    show ?thesis
      unfolding e
      using utf8_decode4[OF utf8_encode4(1,2)[OF 4 assms(2)] continuation_mod[of "c div 4096"] utf8_encode4(3)[OF 4 assms(2)]
                 continuation_mod[of "c div 64"] continuation_mod[of c], where bs = bs]
      by (simp only: append_Cons append_Nil utf8_encode4(4)[OF 4 assms(2)])
  qed
qed


lemma continuation_range: "0 \<le> 0x80 + (x::int) mod 64 \<and> 0x80 + x mod 64 \<le> 0xF4"
proof -
  define r where "r = x mod 64"
  have "0 \<le> r" "r < 64"
    by (simp_all add: r_def)
  then have "0 \<le> 0x80 + r \<and> 0x80 + r \<le> 0xF4"
    by linarith
  then show ?thesis
    by (simp only: r_def)
qed

lemma lead_byte_range:
  fixes l :: int
  shows "lo \<le> l \<Longrightarrow> l < hi \<Longrightarrow> 0 \<le> lo \<Longrightarrow> hi \<le> 0xF5 \<Longrightarrow> 0 \<le> l \<and> l \<le> 0xF4"
  by linarith

lemma utf8_encode_char_range:
  assumes "0 \<le> c" "c \<le> 0x10FFFF" "b \<in> set (utf8_encode_char c)"
  shows "0 \<le> b \<and> b \<le> 0xF4"
proof -
  consider "c < 0x80" | "0x80 \<le> c" "c < 0x800" | "0x800 \<le> c" "c < 0x10000" | "0x10000 \<le> c"
    by linarith
  then show ?thesis
  proof cases
    case 1
    then have e: "utf8_encode_char c = [c]"
      by (simp add: utf8_encode_char_def)
    have "b = c"
      using assms(3) unfolding e by simp
    then show ?thesis
      using assms(1) 1 by linarith
  next
    case 2
    then have e: "utf8_encode_char c = [0xC0 + c div 64, 0x80 + c mod 64]"
      by (simp add: utf8_encode_char_def)
    have l: "0 \<le> 0xC0 + c div 64 \<and> 0xC0 + c div 64 \<le> 0xF4"
      by (rule lead_byte_range[OF utf8_encode2(1,2)[OF 2]]) simp_all
    have "b = 0xC0 + c div 64 \<or> b = 0x80 + c mod 64"
      using assms(3) unfolding e by simp
    then show ?thesis
      using l continuation_range[of c] by blast
  next
    case 3
    then have e: "utf8_encode_char c =
                  [0xE0 + c div 4096, 0x80 + (c div 64) mod 64, 0x80 + c mod 64]"
      by (simp add: utf8_encode_char_def)
    have "0xE0 \<le> 0xE0 + c div 4096" "0xE0 + c div 4096 < 0xF0"
      using utf8_lead3_range[OF 3] by simp_all
    then have l: "0 \<le> 0xE0 + c div 4096 \<and> 0xE0 + c div 4096 \<le> 0xF4"
      by (rule lead_byte_range) simp_all
    have "b = 0xE0 + c div 4096 \<or> b = 0x80 + (c div 64) mod 64 \<or> b = 0x80 + c mod 64"
      using assms(3) unfolding e by simp
    then show ?thesis
      using l continuation_range[of c] continuation_range[of "c div 64"] by blast
  next
    case 4
    then have e: "utf8_encode_char c =
                  [0xF0 + c div 262144, 0x80 + (c div 4096) mod 64,
                   0x80 + (c div 64) mod 64, 0x80 + c mod 64]"
      by (simp add: utf8_encode_char_def)
    have l: "0 \<le> 0xF0 + c div 262144 \<and> 0xF0 + c div 262144 \<le> 0xF4"
      by (rule lead_byte_range[OF utf8_encode4(1,2)[OF 4 assms(2)]]) simp_all
    have "b = 0xF0 + c div 262144 \<or> b = 0x80 + (c div 4096) mod 64
          \<or> b = 0x80 + (c div 64) mod 64 \<or> b = 0x80 + c mod 64"
      using assms(3) unfolding e by simp
    then show ?thesis
      using l continuation_range[of c] continuation_range[of "c div 64"]
        continuation_range[of "c div 4096"] by blast
  qed
qed

lemma utf8_bytes_range:
  assumes "is_str s" "b \<in> set (concat (map utf8_encode_char s))"
  shows "0 \<le> b \<and> b \<le> 0xF4"
proof -
  from assms(2) obtain c where c: "c \<in> set s" "b \<in> set (utf8_encode_char c)"
    by auto
  then have "0 \<le> c" "c \<le> 0x10FFFF"
    using assms(1) by (simp_all add: is_str_def)
  then show ?thesis
    using c(2) by (rule utf8_encode_char_range)
qed

lemma utf8_decode_encode:
  "\<forall>c \<in> set s. 0 \<le> c \<and> c \<le> 0x10FFFF \<and> \<not> is_surrogate c \<Longrightarrow>
   utf8_decode_ignore (concat (map utf8_encode_char s)) = s"
proof (induction s)
  case Nil
  show ?case by simp
next
  case (Cons c s)
  have "utf8_decode_ignore (utf8_encode_char c @ concat (map utf8_encode_char s)) =
        c # utf8_decode_ignore (concat (map utf8_encode_char s))"
    using Cons.prems by (intro utf8_decode_encode_char) simp_all
  then show ?case
    using Cons by (simp del: utf8_decode_ignore.simps)
qed

lemma encode_ByteVocabulary:
  "encode (ByteVocabulary_init k) s =
   (case str_encode_utf8 s of Inl e \<Rightarrow> Inl e | Inr bs \<Rightarrow> Inr (map (\<lambda>b. b + 3) bs))"
  by (simp add: encode_def Vocabulary_encode_def p_encode_def p_convert_strings_to_ids_def
      ByteVocabulary_init_fields split: sum.splits)

lemma ids_of_bytes:
  assumes "\<forall>b \<in> set bs. 0 \<le> b \<and> b \<le> 0xF4"
  shows "takeWhile (\<lambda>i. i \<noteq> 1) (map (\<lambda>b. b + 3) bs) = map (\<lambda>b. b + 3) bs"
    and "filter (\<lambda>i. 3 \<le> i \<and> i < 259) (map (\<lambda>b. b + 3) bs) = map (\<lambda>b. b + 3) bs"
    and "map (\<lambda>i. i - 3) (map (\<lambda>b. b + 3) bs) = bs"
    and "map (\<lambda>b. uint8_add b 3) bs = map (\<lambda>b. b + 3) bs"
    and "replace_unk 259 UNK_ID (map (\<lambda>b. b + 3) bs) = map (\<lambda>b. b + 3) bs"
  using assms by (induction bs) (auto simp: uint8_add_def replace_unk_def)

text \<open>
  On every non-empty string the batched round trip and the scalar one give the same
  result: an encodable string comes back, and a string with a surrogate raises in both.
\<close>

lemma concat_encode_nonempty:
  "s \<noteq> [] \<Longrightarrow> concat (map utf8_encode_char s) \<noteq> []"
  by (cases s) (auto simp: utf8_encode_char_def)

lemma roundtrips_agree_on_nonempty_strings:
  assumes "is_str s" and "s \<noteq> []"
  shows "batched_roundtrip (ByteVocabulary_init k) s = scalar_roundtrip (ByteVocabulary_init k) s"
proof (cases "\<exists>c \<in> set s. is_surrogate c")
  case True
  then show ?thesis
    by (simp add: batched_roundtrip_def scalar_roundtrip_def tf_string_def
        encode_ByteVocabulary str_encode_utf8_def)
next
  case False
  define bs where "bs = concat (map utf8_encode_char s)"
  define ids where "ids = map (\<lambda>b. b + 3) bs"
  have r: "\<forall>b \<in> set bs. 0 \<le> b \<and> b \<le> 0xF4"
    using utf8_bytes_range[OF assms(1)] unfolding bs_def by blast
  have ne: "ids \<noteq> []"
    using concat_encode_nonempty[OF assms(2)] by (simp add: ids_def bs_def)
  have t: "tf_string s = Inr bs"
    using False by (simp add: tf_string_def str_encode_utf8_def bs_def)
  have e: "encode (ByteVocabulary_init k) s = Inr ids"
    using False by (simp add: encode_ByteVocabulary str_encode_utf8_def bs_def ids_def)
  have et: "encode_tf (ByteVocabulary_init k) bs = ids"
    using ids_of_bytes(4)[OF r]
    by (simp add: encode_tf_def Vocabulary_encode_tf_def p_encode_tf_def tf_cast_int32_def
        ByteVocabulary_init_fields ids_def)
  have c: "clean_ids 259 (ByteVocabulary_init k) ids = ids"
    using ids_of_bytes(1,5)[OF r]
    by (simp add: clean_ids_def ByteVocabulary_init_fields EOS_ID_def ids_def)
  have dt: "decode_tf (ByteVocabulary_init k) ids = p_decode_tf (ByteVocabulary_init k) ids"
    by (simp add: decode_tf_def Vocabulary_decode_tf_clean[OF ne] ByteVocabulary_base_vocab_size c)
  show ?thesis
    by (simp add: batched_roundtrip_def scalar_roundtrip_def t e et dt p_decode_tf_def)
qed

section \<open>Properties\<close>

text \<open>
  C7. For every number \<open>k\<close> of extra ids, the byte vocabulary built with \<open>k\<close> has the base
  size 259, which is 3 special tokens and 256 byte values, and the vocabulary size
  \<open>259 + k\<close>.
\<close>

theorem ByteVocabulary_vocab_size:
  "p_num_special_tokens (ByteVocabulary_init k) = 3
   \<and> p_byte_size (ByteVocabulary_init k) = 256
   \<and> p_base_vocab_size (ByteVocabulary_init k) = 259
   \<and> vocab_size (ByteVocabulary_init k) = 259 + k"
  by (simp add: vocab_size_def Vocabulary_vocab_size_def p_base_vocab_size_def
      extra_ids_def ByteVocabulary_init_fields)

text \<open>
  C8. Two byte vocabularies compare equal exactly when their \<open>extra_ids\<close> agree. No other
  attribute takes part: two instances with the same \<open>extra_ids\<close> are equal whatever their
  other attributes hold.
\<close>

theorem ByteVocabulary_eq_extra_ids:
  "ByteVocabulary_eq a b = (extra_ids a = extra_ids b)
   \<and> ByteVocabulary_eq
        \<lparr>p_extra_ids = k, p_use_eos = e1, p_use_unk = u1,
         p_byte_size = s1, p_num_special_tokens = n1\<rparr>
        \<lparr>p_extra_ids = k, p_use_eos = e2, p_use_unk = u2,
         p_byte_size = s2, p_num_special_tokens = n2\<rparr>"
  by (simp add: ByteVocabulary_eq_def extra_ids_def)

text \<open>
  C9. \<open>rate_unsupervised\<close> returns its \<open>value\<close> argument, one million when the argument
  is left out, and the result is the same for any two tasks.
\<close>

theorem rate_unsupervised_constant:
  "rate_unsupervised task (Some v) = v
   \<and> rate_unsupervised task None = 1000000
   \<and> rate_unsupervised task value = rate_unsupervised task' value"
  by (simp add: rate_unsupervised_def)

text \<open>
  C2. When decoding stops at the terminator (\<open>use_eos\<close>) and the ids hold the terminator
  id 1, \<^verbatim>\<open>Vocabulary.decode\<close> decodes the prefix strictly before the first terminator:
  the result is the one of decoding that prefix, the primitive decoder receives that
  prefix (with its unknown ids replaced), and the id right after the prefix is the
  terminator. A vocabulary that replaces unknown ids has a base size above the
  terminator id, as the class requires of its subclasses. For the byte vocabulary this
  gives \<open>decode [3, 4, 1, 5, 6] = decode [3, 4]\<close>.
\<close>

theorem decode_truncates_at_first_eos:
  assumes "p_use_eos self" and "EOS_ID \<in> set ids" and "p_use_unk self \<longrightarrow> EOS_ID < base"
  shows "Vocabulary_decode base dec self ids =
           Vocabulary_decode base dec self (takeWhile (\<lambda>i. i \<noteq> EOS_ID) ids)
         \<and> Vocabulary_decode base dec self ids =
           dec (if p_use_unk self
                then replace_unk base UNK_ID (takeWhile (\<lambda>i. i \<noteq> EOS_ID) ids)
                else takeWhile (\<lambda>i. i \<noteq> EOS_ID) ids)
         \<and> length (takeWhile (\<lambda>i. i \<noteq> EOS_ID) ids) < length ids
         \<and> ids ! length (takeWhile (\<lambda>i. i \<noteq> EOS_ID) ids) = EOS_ID
         \<and> decode (ByteVocabulary_init k) ids =
           decode (ByteVocabulary_init k) (takeWhile (\<lambda>i. i \<noteq> EOS_ID) ids)"
proof -
  have bv: "clean_ids 259 (ByteVocabulary_init k) (takeWhile (\<lambda>i. i \<noteq> EOS_ID) ids) =
            clean_ids 259 (ByteVocabulary_init k) ids"
    by (rule clean_ids_takeWhile) (simp_all add: ByteVocabulary_init_fields EOS_ID_def)
  show ?thesis
    using assms first_occurrence[OF assms(2)]
    by (simp add: Vocabulary_decode_clean clean_ids_takeWhile clean_ids_prefix decode_def
        ByteVocabulary_base_vocab_size bv)
qed

theorem decode_truncates_at_first_eos_witness:
  "p_use_eos (ByteVocabulary_init 0) \<and> EOS_ID \<in> set [3, 4, 1, 5, 6]
   \<and> EOS_ID < p_base_vocab_size (ByteVocabulary_init 0)
   \<and> decode (ByteVocabulary_init 0) [3, 4, 1, 5, 6] = decode (ByteVocabulary_init 0) [3, 4]
   \<and> decode (ByteVocabulary_init 0) [3, 4, 1, 5, 6] = Inr [0, 1]"
  using decode_truncates_at_first_eos
    [of "ByteVocabulary_init 0" "[3, 4, 1, 5, 6]" "p_base_vocab_size (ByteVocabulary_init 0)"
        "p_decode (ByteVocabulary_init 0)" 0]
  by (simp add: ByteVocabulary_init_fields EOS_ID_def UNK_ID_def p_base_vocab_size_def decode_def
      Vocabulary_decode_def unk_id_def eos_id_def replace_unk_def p_decode_def
      p_filter_non_string_ids_def p_convert_ids_to_strings_def py_bytes_def)

text \<open>
  C4. \<^verbatim>\<open>ByteVocabulary.decode\<close> returns a string for every list of integers, negative
  and large ones included: it never raises. The string is read from the ids between 3
  and 258 that stand before the first terminator, every other id being dropped. When
  every id lies outside 3 to 258 the result is the empty string, as for \<open>[300]\<close>.
\<close>

theorem decode_total:
  "(\<exists>s. decode (ByteVocabulary_init k) ids = Inr s)
   \<and> decode (ByteVocabulary_init k) ids =
     Inr (utf8_decode_ignore
            (map (\<lambda>i. i - 3)
               (filter (\<lambda>i. 3 \<le> i \<and> i < 259) (takeWhile (\<lambda>i. i \<noteq> 1) ids))))
   \<and> ((\<forall>i \<in> set ids. i < 3 \<or> 258 < i) \<longrightarrow> decode (ByteVocabulary_init k) ids = Inr [])"
proof -
  have "filter (\<lambda>i. 3 \<le> i \<and> i < 259) (takeWhile (\<lambda>i. i \<noteq> 1) ids) = []"
    if "\<forall>i \<in> set ids. i < 3 \<or> 258 < i"
    using that by (auto simp: filter_empty_conv dest!: set_takeWhileD)
  then show ?thesis
    by (simp add: decode_ByteVocabulary)
qed

theorem decode_total_witness:
  "decode (ByteVocabulary_init 0) [300] = Inr []
   \<and> decode (ByteVocabulary_init 0) [- 7, 0, 2, 259, 1000000000000] = Inr []"
  using decode_total [of 0 "[300]"] decode_total [of 0 "[- 7, 0, 2, 259, 1000000000000]"]
  by simp

text \<open>
  C5. For a non-empty tensor of ids without the terminator id 1, \<^verbatim>\<open>decode_tf\<close> does not
  truncate: the primitive decoder receives the ids at their full length, with every id
  from the base size on replaced by the unknown id 2 when \<open>use_unk\<close> is set. It receives
  the very tensor it was given when \<open>use_unk\<close> is not set or every id is below the base
  size. That holds although the scan for the terminator reports position 0 and the id at
  position 0 is not the terminator. A terminator at position 0 truncates to the empty
  tensor.
\<close>

theorem decode_tf_without_eos:
  assumes "ids \<noteq> []" and "EOS_ID \<notin> set ids"
  shows "tf_argmax (tf_equal ids EOS_ID) = Inr 0
         \<and> Vocabulary_decode_tf base dec_tf self ids =
           dec_tf (if p_use_unk self then replace_unk base UNK_ID ids else ids)
         \<and> length (replace_unk base UNK_ID ids) = length ids
         \<and> ((\<forall>i \<in> set ids. i < base) \<longrightarrow> Vocabulary_decode_tf base dec_tf self ids = dec_tf ids)
         \<and> decode_tf (ByteVocabulary_init k) ids =
           p_decode_tf (ByteVocabulary_init k) (replace_unk 259 UNK_ID ids)
         \<and> (p_use_eos self \<longrightarrow> (p_use_unk self \<longrightarrow> EOS_ID < base) \<longrightarrow>
              Vocabulary_decode_tf base dec_tf self (EOS_ID # rest) = dec_tf [])"
proof -
  have no: "EOS_ID \<notin> set (replace_unk base' UNK_ID ids)" for base'
    using assms(2) eos_mem_replace_unk by blast
  have c: "clean_ids base self ids =
           (if p_use_unk self then replace_unk base UNK_ID ids else ids)"
    using assms(2) no by (simp add: clean_ids_def takeWhile_absent)
  have cbv: "clean_ids 259 (ByteVocabulary_init k) ids = replace_unk 259 UNK_ID ids"
    using assms(2) no by (simp add: clean_ids_def takeWhile_absent ByteVocabulary_init_fields)
  have same: "replace_unk base UNK_ID ids = ids" if "\<forall>i \<in> set ids. i < base"
    using that by (induction ids) (auto simp: replace_unk_def)
  have e: "clean_ids base self (EOS_ID # rest) = []"
    if "p_use_eos self" "p_use_unk self \<longrightarrow> EOS_ID < base"
    using that by (auto simp: clean_ids_def replace_unk_def)
  show ?thesis
    using c cbv same e assms
    by (simp add: Vocabulary_decode_tf_clean[OF assms(1)] decode_tf_def
        Vocabulary_decode_tf_clean[of "EOS_ID # rest"] replace_unk_def
        ByteVocabulary_base_vocab_size tf_argmax_equal)
qed

theorem decode_tf_without_eos_witness:
  "[3, 4, 300] \<noteq> ([] :: int list) \<and> EOS_ID \<notin> set [3, 4, 300]
   \<and> decode_tf (ByteVocabulary_init 0) [3, 4, 300] = p_decode_tf (ByteVocabulary_init 0) [3, 4, 2]
   \<and> decode_tf (ByteVocabulary_init 0) [3, 4] = p_decode_tf (ByteVocabulary_init 0) [3, 4]
   \<and> decode_tf (ByteVocabulary_init 0) [1, 5, 6] = p_decode_tf (ByteVocabulary_init 0) []"
  using decode_tf_without_eos
    [of "[3, 4, 300]" "p_base_vocab_size (ByteVocabulary_init 0)"
        "p_decode_tf (ByteVocabulary_init 0)" "ByteVocabulary_init 0" 0 "[5, 6]"]
    decode_tf_without_eos
    [of "[3, 4]" "p_base_vocab_size (ByteVocabulary_init 0)"
        "p_decode_tf (ByteVocabulary_init 0)" "ByteVocabulary_init 0" 0 "[5, 6]"]
  by (simp add: EOS_ID_def UNK_ID_def replace_unk_def decode_tf_def
      ByteVocabulary_base_vocab_size)
     (simp add: ByteVocabulary_init_fields)

text \<open>
  The tensor does not always reach the primitive decoder unmodified. With the primitive
  decoder returning what it receives, the byte vocabulary hands over \<open>[3, 4, 2]\<close> for
  \<open>[3, 4, 300]\<close>, and, with ten extra ids, for \<open>[3, 4, 260]\<close> too, where 260 is an id of
  the vocabulary: the substitution of lines 127 to 129 comes before the scan.
\<close>

theorem decode_tf_unmodified_counterexample:
  "[3, 4, 300] \<noteq> ([] :: int list) \<and> EOS_ID \<notin> set [3, 4, 300]
   \<and> Vocabulary_decode_tf (p_base_vocab_size (ByteVocabulary_init 0)) Inr
        (ByteVocabulary_init 0) [3, 4, 300] = (Inr [3, 4, 2] :: error + int list)
   \<and> Vocabulary_decode_tf (p_base_vocab_size (ByteVocabulary_init 0)) Inr
        (ByteVocabulary_init 0) [3, 4, 300] \<noteq> (Inr [3, 4, 300] :: error + int list)
   \<and> [3, 4, 260] \<noteq> ([] :: int list) \<and> EOS_ID \<notin> set [3, 4, 260]
   \<and> 260 < vocab_size (ByteVocabulary_init 10)
   \<and> Vocabulary_decode_tf (p_base_vocab_size (ByteVocabulary_init 10)) Inr
        (ByteVocabulary_init 10) [3, 4, 260] = (Inr [3, 4, 2] :: error + int list)"
  by (simp add: Vocabulary_decode_tf_def unk_id_def eos_id_def EOS_ID_def UNK_ID_def
      ByteVocabulary_init_fields p_base_vocab_size_def tf_where_def tf_less_def tf_equal_def
      tf_argmax_def tf_getitem_def vocab_size_def Vocabulary_vocab_size_def extra_ids_def)

text \<open>
  C10. The constructor of the byte vocabulary takes the number of extra ids only and
  sets \<open>use_eos\<close> and \<open>use_unk\<close>: every instance has the terminator id 1 and the unknown
  id 2. Whatever the primitive decoder is, \<^verbatim>\<open>Vocabulary.decode\<close> and, on a non-empty
  tensor, \<^verbatim>\<open>Vocabulary.decode_tf\<close> hand it the ids with those from 259 on replaced by 2
  and cut before the first 1; so do \<^verbatim>\<open>decode\<close> and \<^verbatim>\<open>decode_tf\<close> of the byte
  vocabulary, whose primitive decoders are \<^verbatim>\<open>_decode\<close> and \<^verbatim>\<open>_decode_tf\<close>.
\<close>

theorem ByteVocabulary_always_eos_unk:
  "p_use_eos (ByteVocabulary_init k) \<and> p_use_unk (ByteVocabulary_init k)
   \<and> eos_id (ByteVocabulary_init k) = Some 1 \<and> unk_id (ByteVocabulary_init k) = Some 2
   \<and> Vocabulary_decode (p_base_vocab_size (ByteVocabulary_init k)) dec
        (ByteVocabulary_init k) ids =
     dec (takeWhile (\<lambda>i. i \<noteq> 1) (map (\<lambda>i. if 259 \<le> i then 2 else i) ids))
   \<and> (ids \<noteq> [] \<longrightarrow>
        Vocabulary_decode_tf (p_base_vocab_size (ByteVocabulary_init k)) dec_tf
          (ByteVocabulary_init k) ids =
        dec_tf (takeWhile (\<lambda>i. i \<noteq> 1) (map (\<lambda>i. if 259 \<le> i then 2 else i) ids)))
   \<and> decode (ByteVocabulary_init k) ids =
     p_decode (ByteVocabulary_init k)
       (takeWhile (\<lambda>i. i \<noteq> 1) (map (\<lambda>i. if 259 \<le> i then 2 else i) ids))
   \<and> (ids \<noteq> [] \<longrightarrow>
        decode_tf (ByteVocabulary_init k) ids =
        p_decode_tf (ByteVocabulary_init k)
          (takeWhile (\<lambda>i. i \<noteq> 1) (map (\<lambda>i. if 259 \<le> i then 2 else i) ids)))"
proof -
  have "p_use_eos (ByteVocabulary_init k) \<and> p_use_unk (ByteVocabulary_init k)
        \<and> eos_id (ByteVocabulary_init k) = Some 1 \<and> unk_id (ByteVocabulary_init k) = Some 2"
    by (simp add: ByteVocabulary_init_fields eos_id_def unk_id_def EOS_ID_def UNK_ID_def)
  then show ?thesis
    by (simp add: decode_def decode_tf_def Vocabulary_decode_clean Vocabulary_decode_tf_clean
        ByteVocabulary_clean_ids)
qed

theorem ByteVocabulary_always_eos_unk_witness:
  "Vocabulary_decode (p_base_vocab_size (ByteVocabulary_init 0)) Inr
     (ByteVocabulary_init 0) [3, 300, 1, 5] = (Inr [3, 2] :: error + int list)
   \<and> Vocabulary_decode_tf (p_base_vocab_size (ByteVocabulary_init 0)) Inr
       (ByteVocabulary_init 0) [3, 300, 1, 5] = (Inr [3, 2] :: error + int list)
   \<and> decode (ByteVocabulary_init 0) [3, 300, 1, 5] = p_decode (ByteVocabulary_init 0) [3, 2]
   \<and> decode_tf (ByteVocabulary_init 0) [3, 300, 1, 5] = p_decode_tf (ByteVocabulary_init 0) [3, 2]"
  using ByteVocabulary_always_eos_unk
    [of 0 "Inr :: int list \<Rightarrow> error + int list" "[3, 300, 1, 5]"
        "Inr :: int list \<Rightarrow> error + int list"]
  by simp

text \<open>
  C1. A string whose code points are all encodable (none is a surrogate) is encoded to a
  list of ids, and decoding that list gives the string back.
\<close>

theorem decode_encode_roundtrip:
  assumes "is_str s" and "\<forall>c \<in> set s. \<not> is_surrogate c"
  shows "\<exists>ids. encode (ByteVocabulary_init k) s = Inr ids
               \<and> decode (ByteVocabulary_init k) ids = Inr s"
proof -
  define bs where "bs = concat (map utf8_encode_char s)"
  have enc: "encode (ByteVocabulary_init k) s = Inr (map (\<lambda>b. b + 3) bs)"
    using assms(2) by (simp add: encode_ByteVocabulary str_encode_utf8_def bs_def)
  have r: "\<forall>b \<in> set bs. 0 \<le> b \<and> b \<le> 0xF4"
    using utf8_bytes_range[OF assms(1)] unfolding bs_def by blast
  have "utf8_decode_ignore bs = s"
    unfolding bs_def using assms by (intro utf8_decode_encode) (simp add: is_str_def)
  then have "decode (ByteVocabulary_init k) (map (\<lambda>b. b + 3) bs) = Inr s"
    by (simp only: decode_ByteVocabulary ids_of_bytes(1-3)[OF r])
  with enc show ?thesis
    by blast
qed

theorem decode_encode_roundtrip_witness:
  "is_str [104, 233, 0x20AC, 0x1F600]
   \<and> list_all (\<lambda>c. \<not> is_surrogate c) [104, 233, 0x20AC, 0x1F600]
   \<and> encode (ByteVocabulary_init 0) [104, 233, 0x20AC, 0x1F600] =
     Inr [107, 198, 172, 229, 133, 175, 243, 162, 155, 131]
   \<and> decode (ByteVocabulary_init 0) [107, 198, 172, 229, 133, 175, 243, 162, 155, 131] =
     Inr [104, 233, 0x20AC, 0x1F600]"
proof -
  have s: "is_str [104, 233, 0x20AC, 0x1F600]"
    by (simp add: is_str_def)
  have n: "\<forall>c \<in> set [104, 233, 0x20AC, 0x1F600]. \<not> is_surrogate c"
    by (simp add: is_surrogate_def)
  have e: "encode (ByteVocabulary_init 0) [104, 233, 0x20AC, 0x1F600] =
           Inr [107, 198, 172, 229, 133, 175, 243, 162, 155, 131]"
    using n by (simp add: encode_ByteVocabulary str_encode_utf8_def utf8_encode_char_def)
  show ?thesis
    using decode_encode_roundtrip[OF s n, of 0] s n e by (simp add: list_all_iff)
qed

text \<open>
  C3. \<^verbatim>\<open>encode\<close> is the UTF-8 encoding of the string with 3 added to every byte, and
  raises where the UTF-8 encoding raises; a string without surrogates is always encoded.
  A result has as many ids as the UTF-8 encoding has bytes, and every id lies between 3
  and 258, so none is 0, 1 or 2.
\<close>

theorem encode_utf8_plus_3:
  assumes "is_str s"
  shows "encode (ByteVocabulary_init k) s =
           (case str_encode_utf8 s of
              Inl e \<Rightarrow> Inl e
            | Inr bs \<Rightarrow> Inr (map (\<lambda>b. b + 3) bs))
         \<and> ((\<forall>c \<in> set s. \<not> is_surrogate c) \<longrightarrow>
              encode (ByteVocabulary_init k) s =
              Inr (map (\<lambda>b. b + 3) (concat (map utf8_encode_char s))))
         \<and> (\<forall>ids. encode (ByteVocabulary_init k) s = Inr ids \<longrightarrow>
              (\<exists>bs. str_encode_utf8 s = Inr bs \<and> (\<forall>b \<in> set bs. 0 \<le> b \<and> b \<le> 255)
                    \<and> ids = map (\<lambda>b. b + 3) bs \<and> length ids = length bs)
              \<and> (\<forall>i \<in> set ids. i \<notin> {0, 1, 2} \<and> 3 \<le> i \<and> i \<le> 258))"
proof -
  define bs where "bs = concat (map utf8_encode_char s)"
  have r: "0 \<le> b \<and> b \<le> 0xF4" if "b \<in> set bs" for b
    using utf8_bytes_range[OF assms] that unfolding bs_def by blast
  have p1: "encode (ByteVocabulary_init k) s =
            (case str_encode_utf8 s of
               Inl e \<Rightarrow> Inl e
             | Inr bs \<Rightarrow> Inr (map (\<lambda>b. b + 3) bs))"
    by (rule encode_ByteVocabulary)
  have p2: "(\<forall>c \<in> set s. \<not> is_surrogate c) \<longrightarrow>
            encode (ByteVocabulary_init k) s =
            Inr (map (\<lambda>b. b + 3) (concat (map utf8_encode_char s)))"
    by (simp add: encode_ByteVocabulary str_encode_utf8_def)
  have p3: "(\<exists>bs. str_encode_utf8 s = Inr bs \<and> (\<forall>b \<in> set bs. 0 \<le> b \<and> b \<le> 255)
                 \<and> ids = map (\<lambda>b. b + 3) bs \<and> length ids = length bs)
            \<and> (\<forall>i \<in> set ids. i \<notin> {0, 1, 2} \<and> 3 \<le> i \<and> i \<le> 258)"
    if "encode (ByteVocabulary_init k) s = Inr ids" for ids
  proof -
    from that have u: "str_encode_utf8 s = Inr bs" and i: "ids = map (\<lambda>b. b + 3) bs"
      unfolding bs_def
      by (auto simp: encode_ByteVocabulary str_encode_utf8_def split: if_splits)
    have b255: "\<forall>b \<in> set bs. 0 \<le> b \<and> b \<le> 255"
    proof
      fix b assume "b \<in> set bs"
      from r[OF this] show "0 \<le> b \<and> b \<le> 255" by linarith
    qed
    have rng: "\<forall>i \<in> set ids. i \<notin> {0, 1, 2} \<and> 3 \<le> i \<and> i \<le> 258"
    proof
      fix i' assume "i' \<in> set ids"
      then obtain b where b: "b \<in> set bs" "i' = b + 3"
        unfolding i by auto
      from r[OF b(1)] have "3 \<le> i' \<and> i' \<le> 258"
        unfolding b(2) by linarith
      then show "i' \<notin> {0, 1, 2} \<and> 3 \<le> i' \<and> i' \<le> 258"
        by auto
    qed
    have "str_encode_utf8 s = Inr bs \<and> (\<forall>b \<in> set bs. 0 \<le> b \<and> b \<le> 255)
          \<and> ids = map (\<lambda>b. b + 3) bs \<and> length ids = length bs"
      using u i b255 by simp
    then show ?thesis
      using rng by blast
  qed
  from p1 p2 p3 show ?thesis
    by blast
qed

theorem encode_utf8_plus_3_witness:
  "is_str [104, 233, 0x20AC, 0x1F600]
   \<and> list_all (\<lambda>c. \<not> is_surrogate c) [104, 233, 0x20AC, 0x1F600]
   \<and> str_encode_utf8 [104, 233, 0x20AC, 0x1F600] =
     Inr [104, 195, 169, 226, 130, 172, 240, 159, 152, 128]
   \<and> encode (ByteVocabulary_init 0) [104, 233, 0x20AC, 0x1F600] =
     Inr [107, 198, 172, 229, 133, 175, 243, 162, 155, 131]"
proof -
  have s: "is_str [104, 233, 0x20AC, 0x1F600]"
    by (simp add: is_str_def)
  have u: "str_encode_utf8 [104, 233, 0x20AC, 0x1F600] =
           Inr [104, 195, 169, 226, 130, 172, 240, 159, 152, 128]"
    by (simp add: str_encode_utf8_def utf8_encode_char_def is_surrogate_def)
  have e: "encode (ByteVocabulary_init 0) [104, 233, 0x20AC, 0x1F600] =
           (case str_encode_utf8 [104, 233, 0x20AC, 0x1F600] of
              Inl e \<Rightarrow> Inl e
            | Inr bs \<Rightarrow> Inr (map (\<lambda>b. b + 3) bs))"
    using encode_utf8_plus_3[OF s, of 0] by (rule conjunct1)
  have "encode (ByteVocabulary_init 0) [104, 233, 0x20AC, 0x1F600] =
        Inr [107, 198, 172, 229, 133, 175, 243, 162, 155, 131]"
    unfolding e u by simp
  moreover have "list_all (\<lambda>c. \<not> is_surrogate c) [104, 233, 0x20AC, 0x1F600]"
    by (simp add: is_surrogate_def)
  ultimately show ?thesis
    using s u by blast
qed

text \<open>
  C6. The batched round trip and the scalar one differ on the empty string: \<^verbatim>\<open>encode_tf\<close>
  gives the empty tensor, on which \<^verbatim>\<open>decode_tf\<close> fails, the scan for the terminator and
  the read of element 0 both needing an element, while \<^verbatim>\<open>decode\<close> of the empty list is
  the empty string. Lemma \<open>roundtrips_agree_on_nonempty_strings\<close> shows that the two
  agree on every other string.
\<close>

theorem roundtrips_differ_on_empty_string:
  "tf_string [] = Inr []
   \<and> encode_tf (ByteVocabulary_init k) [] = []
   \<and> decode_tf (ByteVocabulary_init k) [] = Inl InvalidArgumentError
   \<and> batched_roundtrip (ByteVocabulary_init k) [] = Inl InvalidArgumentError
   \<and> encode (ByteVocabulary_init k) [] = Inr []
   \<and> decode (ByteVocabulary_init k) [] = Inr []
   \<and> scalar_roundtrip (ByteVocabulary_init k) [] = Inr []"
proof -
  have t: "tf_string [] = Inr []"
    by (simp add: tf_string_def str_encode_utf8_def)
  have et: "encode_tf (ByteVocabulary_init k) [] = []"
    by (simp add: encode_tf_def Vocabulary_encode_tf_def p_encode_tf_def tf_cast_int32_def)
  have dt: "decode_tf (ByteVocabulary_init k) [] = Inl InvalidArgumentError"
    by (simp add: decode_tf_def Vocabulary_decode_tf_def unk_id_def eos_id_def
        ByteVocabulary_init_fields tf_where_def tf_less_def tf_equal_def tf_argmax_def)
  have e: "encode (ByteVocabulary_init k) [] = Inr []"
    by (simp add: encode_ByteVocabulary str_encode_utf8_def)
  have d: "decode (ByteVocabulary_init k) [] = Inr []"
    by (simp add: decode_ByteVocabulary)
  show ?thesis
    by (simp add: batched_roundtrip_def scalar_roundtrip_def t et dt e d)
qed

end
